theory Spec2Isabelle
  imports Complex_Main "HOL-Library.Word" "HOL-Library.Sublist"
begin

section \<open>OK PDF: the PDF service (services/pdfService.ts)\<close>

text \<open>
  The service consists of five functions: \<open>mergePdfs\<close>, \<open>splitPdf\<close>, \<open>editPdf\<close>,
  \<open>extractText\<close> and \<open>createPdfFromText\<close>. They are glue over two libraries, pdf-lib
  (documents, pages, drawing) and PDF.js (text extraction). The libraries are not part of the
  repository; the few operations the service calls are modelled below by what they do to a
  document seen as a sequence of pages.

  JavaScript values are modelled as follows. A string is its sequence of UTF-16 code units
  (what \<open>split\<close>, \<open>substring\<close> and \<open>length\<close> count). Page numbers, which the caller obtains
  from \<open>parseInt\<close>, are integers. Coordinates, sizes and colour components are numbers, taken
  as exact reals: the service only subtracts fixed amounts from them and compares them.

  An exception of the libraries is a value of type \<open>error\<close>: a file that does not parse, a
  page index that names no page, a text that the font cannot encode.
\<close>

subsection \<open>Strings\<close>

type_synonym code_unit = "16 word"
type_synonym jsstring = "code_unit list"

text \<open>A string literal of the source, as code units.\<close>

definition lit :: "string \<Rightarrow> jsstring" where
  "lit s = map of_char s"

text \<open>The line feed \<open>'\n'\<close>.\<close>

definition newline :: code_unit where
  "newline = 10"

text \<open>\<open>text.split('\n')\<close>: the pieces between line feeds; the empty string gives one empty piece.\<close>

fun splitAcc :: "jsstring \<Rightarrow> jsstring \<Rightarrow> jsstring list" where
  "splitAcc cur [] = [cur]"
| "splitAcc cur (c # cs) =
     (if c = newline then cur # splitAcc [] cs else splitAcc (cur @ [c]) cs)"

definition split_newline :: "jsstring \<Rightarrow> jsstring list" where
  "split_newline text = splitAcc [] text"

text \<open>\<open>line.substring(0, n)\<close> for a start of 0 and a non-negative end.\<close>

definition substring0 :: "nat \<Rightarrow> jsstring \<Rightarrow> jsstring" where
  "substring0 n s = take n s"

text \<open>\<open>items.join(sep)\<close>.\<close>

fun join :: "jsstring \<Rightarrow> jsstring list \<Rightarrow> jsstring" where
  "join sep [] = []"
| "join sep [s] = s"
| "join sep (s # t # ts) = s @ sep @ join sep (t # ts)"

text \<open>
  A page number inside a template literal: the decimal digits of a natural number, without
  leading zeros.
\<close>

fun decimal :: "nat \<Rightarrow> jsstring" where
  "decimal n =
     (if n < 10 then [of_nat (48 + n)]
      else decimal (n div 10) @ [of_nat (48 + n mod 10)])"

declare decimal.simps [simp del]

subsection \<open>Documents, pages and the object store\<close>

datatype StandardFonts = Helvetica | HelveticaBold

datatype color = RGB real real real

definition rgb :: "real \<Rightarrow> real \<Rightarrow> real \<Rightarrow> color" where
  "rgb r g b = RGB r g b"

text \<open>The options object passed to \<open>page.drawText\<close>; \<open>opt_opacity\<close> is \<open>None\<close> when not given.\<close>

record drawTextOptions =
  opt_x :: real
  opt_y :: real
  opt_size :: real
  opt_font :: StandardFonts
  opt_color :: color
  opt_opacity :: "real option"

text \<open>
  The content of a page: what it held when it was loaded (opaque bytes of its content
  stream) followed by the text drawn on it since, in drawing order.
\<close>

datatype contentItem = Existing "8 word list" | DrawText jsstring drawTextOptions

record page =
  page_width :: real
  page_height :: real
  contents :: "contentItem list"

record document =
  doc_pages :: "page list"
  doc_fonts :: "StandardFonts list"

text \<open>
  A file handed to the service: either its bytes parse as a PDF document, or they do not.
\<close>

datatype File = PdfFile document | NotPdf

datatype error = InvalidPdf | PageIndexOutOfRange | CannotEncode

text \<open>
  pdf-lib documents are mutable objects. The store holds every document object created so
  far; a reference is its position. A page object is addressed through its document and its
  position there.
\<close>

type_synonym ref = nat
type_synonym heap = "document list"
type_synonym pageRef = "ref \<times> nat"

text \<open>\<open>PDFDocument.create()\<close>: a new document object with no pages.\<close>

definition PDFDocument_create :: "heap \<Rightarrow> ref \<times> heap" where
  "PDFDocument_create h = (length h, h @ [\<lparr>doc_pages = [], doc_fonts = []\<rparr>])"

text \<open>\<open>PDFDocument.load(await file.arrayBuffer())\<close>: a new document object, or an exception.\<close>

definition PDFDocument_load :: "File \<Rightarrow> heap \<Rightarrow> error + ref \<times> heap" where
  "PDFDocument_load f h =
     (case f of NotPdf \<Rightarrow> Inl InvalidPdf | PdfFile d \<Rightarrow> Inr (length h, h @ [d]))"

definition getPageCount :: "heap \<Rightarrow> ref \<Rightarrow> nat" where
  "getPageCount h doc = length (doc_pages (h ! doc))"

definition getPageIndices :: "heap \<Rightarrow> ref \<Rightarrow> int list" where
  "getPageIndices h doc = map int [0..<getPageCount h doc]"


definition getSize :: "heap \<Rightarrow> pageRef \<Rightarrow> real \<times> real" where
  "getSize h p =
     (let pg = doc_pages (h ! fst p) ! snd p in (page_width pg, page_height pg))"

text \<open>
  \<open>dst.copyPages(src, indices)\<close>: copies of the source's pages at the given indices, in the
  order of the indices. The source is left as it is. An index that names no page of the
  source makes the call fail.
\<close>

definition copyPages :: "heap \<Rightarrow> ref \<Rightarrow> int list \<Rightarrow> error + page list" where
  "copyPages h src idxs =
     (let srcPages = doc_pages (h ! src)
      in if list_all (\<lambda>i. 0 \<le> i \<and> i < int (length srcPages)) idxs
         then Inr (map (\<lambda>i. srcPages ! nat i) idxs)
         else Inl PageIndexOutOfRange)"

text \<open>\<open>doc.addPage(page)\<close>: appends the page to the document.\<close>

definition addPage :: "ref \<Rightarrow> page \<Rightarrow> heap \<Rightarrow> heap" where
  "addPage doc pg h = h[doc := (h ! doc)\<lparr>doc_pages := doc_pages (h ! doc) @ [pg]\<rparr>]"

text \<open>
  \<open>doc.addPage()\<close>: appends an empty page of the library's default size and returns it. The
  default size is a constant of the library; it is a parameter here.
\<close>

definition addNewPage :: "ref \<Rightarrow> real \<times> real \<Rightarrow> heap \<Rightarrow> pageRef \<times> heap" where
  "addNewPage doc defaultSize h =
     ((doc, length (doc_pages (h ! doc))),
      addPage doc \<lparr>page_width = fst defaultSize, page_height = snd defaultSize, contents = []\<rparr> h)"

text \<open>\<open>doc.embedFont(f)\<close>: registers the font with the document.\<close>

definition embedFont :: "ref \<Rightarrow> StandardFonts \<Rightarrow> heap \<Rightarrow> heap" where
  "embedFont doc f h = h[doc := (h ! doc)\<lparr>doc_fonts := doc_fonts (h ! doc) @ [f]\<rparr>]"

text \<open>
  A standard font of pdf-lib encodes only the characters of its encoding (WinAnsi for
  Helvetica and Helvetica Bold). Which code units a font encodes is a table of the library, a
  parameter here. A surrogate code unit is in no such table.
\<close>

type_synonym encoding = "StandardFonts \<Rightarrow> code_unit \<Rightarrow> bool"

text \<open>
  \<open>page.drawText(text, options)\<close>: encodes the text in the font of the options and appends the
  drawing to the content of the page. It throws, and leaves the page as it is, when the text
  has a code unit that the font does not encode.
\<close>

definition drawText ::
  "encoding \<Rightarrow> pageRef \<Rightarrow> jsstring \<Rightarrow> drawTextOptions \<Rightarrow> heap \<Rightarrow> error + heap"
where
  "drawText encodable p s opts h =
     (if list_all (encodable (opt_font opts)) s
      then (let d = h ! fst p; pg = doc_pages d ! snd p
            in Inr (h[fst p := d\<lparr>doc_pages :=
                 (doc_pages d)[snd p := pg\<lparr>contents := contents pg @ [DrawText s opts]\<rparr>]\<rparr>]))
      else Inl CannotEncode)"

text \<open>
  Modelled from the spec: the serializer of the document codec (\<open>doc.save()\<close> of pdf-lib, which
  is not part of the repository). The spec's external interface says that the codec "accepts a
  page-sequence handle and returns serialized bytes", with no failure case. The bytes are
  represented by the document they encode, that is, the state of the document object when it
  is saved.
\<close>

definition save :: "heap \<Rightarrow> ref \<Rightarrow> document" where
  "save h doc = h ! doc"

subsection \<open>mergePdfs\<close>

fun mergeLoop :: "ref \<Rightarrow> File list \<Rightarrow> heap \<Rightarrow> error + heap" where
  "mergeLoop mergedPdf [] h = Inr h"
| "mergeLoop mergedPdf (file # files) h =
     (case PDFDocument_load file h of
        Inl e \<Rightarrow> Inl e
      | Inr (pdf, h1) \<Rightarrow>
          (case copyPages h1 pdf (getPageIndices h1 pdf) of
             Inl e \<Rightarrow> Inl e
           | Inr copiedPages \<Rightarrow>
               mergeLoop mergedPdf files
                 (foldl (\<lambda>hh pg. addPage mergedPdf pg hh) h1 copiedPages)))"

definition mergePdfs :: "File list \<Rightarrow> heap \<Rightarrow> error + document \<times> heap" where
  "mergePdfs files h =
     (let (mergedPdf, h0) = PDFDocument_create h
      in case mergeLoop mergedPdf files h0 of
           Inl e \<Rightarrow> Inl e
         | Inr h1 \<Rightarrow> Inr (save h1 mergedPdf, h1))"

subsection \<open>splitPdf\<close>

text \<open>
  \<open>pageNumbers.map(n => n - 1).filter(n => n >= 0 && n < pdf.getPageCount())\<close>, the value of
  the constant \<open>indices\<close>.
\<close>

definition indices :: "int list \<Rightarrow> nat \<Rightarrow> int list" where
  "indices pageNumbers pageCount =
     filter (\<lambda>n. n \<ge> 0 \<and> n < int pageCount) (map (\<lambda>n. n - 1) pageNumbers)"

definition splitPdf :: "File \<Rightarrow> int list \<Rightarrow> heap \<Rightarrow> error + document \<times> heap" where
  "splitPdf file pageNumbers h =
     (case PDFDocument_load file h of
        Inl e \<Rightarrow> Inl e
      | Inr (pdf, h1) \<Rightarrow>
          (let (newPdf, h2) = PDFDocument_create h1
           in case copyPages h2 pdf (indices pageNumbers (getPageCount h2 pdf)) of
                Inl e \<Rightarrow> Inl e
              | Inr copiedPages \<Rightarrow>
                  (let h3 = foldl (\<lambda>hh pg. addPage newPdf pg hh) h2 copiedPages
                   in Inr (save h3 newPdf, h3))))"

subsection \<open>editPdf\<close>



subsection \<open>extractText\<close>

text \<open>
  PDF.js reads the file on its own. What it reports for a page (\<open>page.getTextContent()\<close>) is the
  work of the library's reader, a parameter here: a function from a page to its text items.
\<close>

record textItem =
  item_str :: jsstring

type_synonym textReader = "page \<Rightarrow> textItem list"

function extractLoop :: "textReader \<Rightarrow> page list \<Rightarrow> nat \<Rightarrow> jsstring \<Rightarrow> jsstring" where
  "extractLoop getTextContent pdfPages i fullText =
     (if i \<le> length pdfPages
      then (let pg = pdfPages ! (i - 1);
                textContent = getTextContent pg;
                pageText = join (lit '' '') (map item_str textContent)
            in extractLoop getTextContent pdfPages (i + 1)
                 (fullText @ lit ''--- Page '' @ decimal i @ lit '' ---'' @ [newline]
                    @ pageText @ [newline, newline]))
      else fullText)"
  by pat_completeness auto
termination
  by (relation "measure (\<lambda>(r, ps, i, t). Suc (length ps) - i)") auto

definition extractText :: "textReader \<Rightarrow> File \<Rightarrow> error + jsstring" where
  "extractText getTextContent file =
     (case file of
        NotPdf \<Rightarrow> Inl InvalidPdf
      | PdfFile pdf \<Rightarrow> Inr (extractLoop getTextContent (doc_pages pdf) 1 []))"

subsection \<open>createPdfFromText\<close>

definition fontSize :: real where
  "fontSize = 12"

definition margin :: real where
  "margin = 50"

fun drawLines ::
  "encoding \<Rightarrow> ref \<Rightarrow> real \<times> real \<Rightarrow> StandardFonts \<Rightarrow> real \<Rightarrow> jsstring list \<Rightarrow>
   pageRef \<times> real \<Rightarrow> heap \<Rightarrow> error + heap"
where
  "drawLines encodable pdfDoc defaultSize font height [] (pg, cursorY) h = Inr h"
| "drawLines encodable pdfDoc defaultSize font height (line # lines) (pg, cursorY) h =
     (let (pg1, cursorY1, h1) =
            (if cursorY < margin + 20
             then (let (newPg, hh) = addNewPage pdfDoc defaultSize h
                   in (newPg, height - margin, hh))
             else (pg, cursorY, h))
      in case drawText encodable pg1 (substring0 100 line)
                \<lparr>opt_x = margin, opt_y = cursorY1, opt_size = fontSize, opt_font = font,
                 opt_color = rgb 0 0 0, opt_opacity = None\<rparr> h1 of
           Inl e \<Rightarrow> Inl e
         | Inr h2 \<Rightarrow>
             drawLines encodable pdfDoc defaultSize font height lines
               (pg1, cursorY1 - (fontSize + 5)) h2)"

definition createPdfFromText ::
  "encoding \<Rightarrow> real \<times> real \<Rightarrow> jsstring \<Rightarrow> jsstring \<Rightarrow> heap \<Rightarrow> error + document \<times> heap"
where
  "createPdfFromText encodable defaultSize text title h =
     (let (pdfDoc, h0) = PDFDocument_create h;
          h1 = embedFont pdfDoc Helvetica h0;
          font = Helvetica;
          (pg, h2) = addNewPage pdfDoc defaultSize h1;
          (width, height) = getSize h2 pg;
          lines = split_newline text;
          cursorY = height - margin
      in case drawLines encodable pdfDoc defaultSize font height lines (pg, cursorY) h2 of
           Inl e \<Rightarrow> Inl e
         | Inr h3 \<Rightarrow> Inr (save h3 pdfDoc, h3))"

text \<open>
  The texts that \<open>createPdfFromText\<close> can draw: every line, cut to its first 100 code units, is
  encoded by Helvetica. What lies beyond index 100 is never handed to \<open>drawText\<close>.
\<close>

definition drawableText :: "encoding \<Rightarrow> jsstring \<Rightarrow> bool" where
  "drawableText encodable text \<longleftrightarrow>
     list_all (\<lambda>line. list_all (encodable Helvetica) (substring0 100 line)) (split_newline text)"

text \<open>
  An encoding for the examples: the printable ASCII code units, which WinAnsi has. It has no
  Devanagari and no Cyrillic letter, as WinAnsi has none.
\<close>

definition printableAscii :: encoding where
  "printableAscii font c \<longleftrightarrow> 32 \<le> c \<and> c \<le> 126"

subsection \<open>Observations and document-level view\<close>

text \<open>
  What has been drawn, read off a document: the text drawings of a page in drawing order, and
  those of all pages in page order.
\<close>

fun drawn :: "contentItem \<Rightarrow> (jsstring \<times> drawTextOptions) list" where
  "drawn (Existing bytes) = []"
| "drawn (DrawText s opts) = [(s, opts)]"

definition drawings :: "page \<Rightarrow> (jsstring \<times> drawTextOptions) list" where
  "drawings pg = concat (map drawn (contents pg))"


text \<open>
  The loop of \<open>createPdfFromText\<close> only touches the document it has created. The following
  functions describe its effect on that document alone, when every line can be drawn;
  \<open>drawLines_heap\<close> below proves that this is what \<open>drawLines\<close> does to the store, and that it
  fails otherwise. They serve the proofs only.
\<close>

definition blankPage :: "real \<times> real \<Rightarrow> page" where
  "blankPage defaultSize = \<lparr>page_width = fst defaultSize, page_height = snd defaultSize, contents = []\<rparr>"

definition drawOn :: "nat \<Rightarrow> jsstring \<Rightarrow> drawTextOptions \<Rightarrow> document \<Rightarrow> document" where
  "drawOn i s opts d =
     d\<lparr>doc_pages := (doc_pages d)[i := (doc_pages d ! i)\<lparr>contents := contents (doc_pages d ! i) @ [DrawText s opts]\<rparr>]\<rparr>"

definition lineOptions :: "StandardFonts \<Rightarrow> real \<Rightarrow> drawTextOptions" where
  "lineOptions font cursorY =
     \<lparr>opt_x = margin, opt_y = cursorY, opt_size = fontSize, opt_font = font,
      opt_color = rgb 0 0 0, opt_opacity = None\<rparr>"

fun layoutDoc ::
  "real \<times> real \<Rightarrow> StandardFonts \<Rightarrow> real \<Rightarrow> jsstring list \<Rightarrow> nat \<times> real \<Rightarrow> document \<Rightarrow> document"
where
  "layoutDoc defaultSize font height [] (i, cursorY) d = d"
| "layoutDoc defaultSize font height (line # lines) (i, cursorY) d =
     (if cursorY < margin + 20
      then layoutDoc defaultSize font height lines
             (length (doc_pages d), height - margin - (fontSize + 5))
             (drawOn (length (doc_pages d)) (substring0 100 line) (lineOptions font (height - margin))
                (d\<lparr>doc_pages := doc_pages d @ [blankPage defaultSize]\<rparr>))
      else layoutDoc defaultSize font height lines (i, cursorY - (fontSize + 5))
             (drawOn i (substring0 100 line) (lineOptions font cursorY) d))"

definition layoutOf :: "real \<times> real \<Rightarrow> jsstring \<Rightarrow> document" where
  "layoutOf defaultSize text =
     layoutDoc defaultSize Helvetica (snd defaultSize) (split_newline text)
       (0, snd defaultSize - margin)
       \<lparr>doc_pages = [blankPage defaultSize], doc_fonts = [Helvetica]\<rparr>"



text \<open>
  The cursor on a page after \<open>k\<close> lines, and the two facts about a page that the loop of
  \<open>createPdfFromText\<close> maintains: its drawings stand at the successive cursor positions, none
  but the first at a cursor below \<open>margin + 20\<close>; and, for a page that has been left, the cursor
  after its last line was below \<open>margin + 20\<close>.
\<close>

definition cursorAt :: "real \<Rightarrow> nat \<Rightarrow> real" where
  "cursorAt height k = height - margin - real k * (fontSize + 5)"



text \<open>
  The block of a page, in the words of the spec: the line \<open>--- Page {n} ---\<close>, then the text
  fragments of the page joined with single spaces, then a blank line.
\<close>

definition pageText :: "textReader \<Rightarrow> page \<Rightarrow> jsstring" where
  "pageText getTextContent pg = join (lit '' '') (map item_str (getTextContent pg))"

definition pageBlock :: "textReader \<Rightarrow> nat \<Rightarrow> page \<Rightarrow> jsstring" where
  "pageBlock getTextContent n pg =
     lit ''--- Page '' @ decimal n @ lit '' ---'' @ [newline]
     @ pageText getTextContent pg @ [newline, newline]"

text \<open>
  Occurrences of the page-delimiter marker in a string: the positions at which
  \<open>--- Page \<close>, one or more decimal digits and \<open> ---\<close> can be read.
\<close>

definition isDigit :: "code_unit \<Rightarrow> bool" where
  "isDigit c \<longleftrightarrow> 48 \<le> c \<and> c \<le> 57"

definition markerAt :: "jsstring \<Rightarrow> bool" where
  "markerAt s \<longleftrightarrow>
     prefix (lit ''--- Page '') s
     \<and> takeWhile isDigit (drop 9 s) \<noteq> []
     \<and> prefix (lit '' ---'') (dropWhile isDigit (drop 9 s))"

fun countMarkers :: "jsstring \<Rightarrow> nat" where
  "countMarkers [] = 0"
| "countMarkers (c # cs) = (if markerAt (c # cs) then 1 else 0) + countMarkers cs"

text \<open>
  A text reader for the examples: it reports the texts drawn on the page, one item each.
\<close>

definition drawnTextReader :: textReader where
  "drawnTextReader pg = map (\<lambda>(s, opts). \<lparr>item_str = s\<rparr>) (drawings pg)"

section \<open>Properties\<close>

subsection \<open>The store operations\<close>

lemma foldl_addPage:
  "doc < length h \<Longrightarrow>
   foldl (\<lambda>hh pg. addPage doc pg hh) h ps = h[doc := (h ! doc)\<lparr>doc_pages := doc_pages (h ! doc) @ ps\<rparr>]"
proof (induction ps arbitrary: h)
  case Nil
  then show ?case by simp
next
  case (Cons p ps)
  then show ?case by (simp add: addPage_def)
qed

lemma copyPages_all:
  "copyPages h src (getPageIndices h src) = Inr (doc_pages (h ! src))"
  by (simp add: copyPages_def getPageIndices_def getPageCount_def list_all_iff Let_def comp_def map_nth)

lemma copyPages_indices:
  "copyPages h src (indices pageNumbers (getPageCount h src)) =
     Inr (map (\<lambda>i. doc_pages (h ! src) ! nat i) (indices pageNumbers (length (doc_pages (h ! src)))))"
  by (simp add: copyPages_def indices_def getPageCount_def list_all_iff Let_def)

lemma mergeLoop_parsed:
  "mergedPdf < length h \<Longrightarrow>
   mergeLoop mergedPdf (map PdfFile docs) h =
     Inr (h[mergedPdf := (h ! mergedPdf)\<lparr>doc_pages := doc_pages (h ! mergedPdf) @ concat (map doc_pages docs)\<rparr>] @ docs)"
proof (induction docs arbitrary: h)
  case Nil
  then show ?case by simp
next
  case (Cons d docs)
  let ?h1 = "h @ [d]"
  have load: "PDFDocument_load (PdfFile d) h = Inr (length h, ?h1)"
    by (simp add: PDFDocument_load_def)
  have cp: "copyPages ?h1 (length h) (getPageIndices ?h1 (length h)) = Inr (doc_pages d)"
    by (simp add: copyPages_all)
  have m: "mergedPdf < length ?h1" using Cons.prems by simp
  show ?case
    using Cons.prems
    by (simp add: load cp foldl_addPage [OF m] Cons.IH nth_append list_update_append)
qed

lemma mergePdfs_parsed:
  "mergePdfs (map PdfFile docs) h =
     Inr (\<lparr>doc_pages = concat (map doc_pages docs), doc_fonts = []\<rparr>,
          h @ \<lparr>doc_pages = concat (map doc_pages docs), doc_fonts = []\<rparr> # docs)"
  by (simp add: mergePdfs_def PDFDocument_create_def mergeLoop_parsed save_def nth_append)

lemma splitPdf_parsed:
  "splitPdf (PdfFile d) pageNumbers h =
     Inr (\<lparr>doc_pages = map (\<lambda>i. doc_pages d ! nat i) (indices pageNumbers (length (doc_pages d))), doc_fonts = []\<rparr>,
          h @ [d, \<lparr>doc_pages = map (\<lambda>i. doc_pages d ! nat i) (indices pageNumbers (length (doc_pages d))), doc_fonts = []\<rparr>])"
  by (simp add: splitPdf_def PDFDocument_load_def PDFDocument_create_def copyPages_indices
      foldl_addPage save_def nth_append)

subsection \<open>Page selection and composition\<close>

text \<open>
  Claim C1. For every requested sequence \<open>r\<close> of 1-indexed page numbers and every page count
  \<open>p\<close>, the indices that \<open>splitPdf\<close> computes are exactly the values \<open>n - 1\<close> for the entries
  \<open>n\<close> of \<open>r\<close> with \<open>1 \<le> n \<le> p\<close>, in the caller's order and with their duplicates; no index is
  below 0 or at least \<open>p\<close>; selecting \<open>[1,3,1]\<close> from 5 pages gives \<open>[0,2,0]\<close>; and \<open>splitPdf\<close> on
  a file that parses never fails, whatever is requested: out-of-range entries are dropped and
  the output holds the selected pages of the source.
\<close>

theorem splitPdf_selects_valid_pages:
  "indices r p = map (\<lambda>n. n - 1) (filter (\<lambda>n. 1 \<le> n \<and> n \<le> int p) r)
   \<and> (\<forall>i \<in> set (indices r p). 0 \<le> i \<and> i < int p)
   \<and> indices [1, 3, 1] 5 = [0, 2, 0]
   \<and> (\<exists>out h'. splitPdf (PdfFile d) r h = Inr (out, h')
         \<and> doc_pages out = map (\<lambda>i. doc_pages d ! nat i) (indices r (length (doc_pages d))))"
proof -
  have "indices r p = map (\<lambda>n. n - 1) (filter (\<lambda>n. 1 \<le> n \<and> n \<le> int p) r)"
    by (induction r) (auto simp: indices_def)
  moreover have "\<forall>i \<in> set (indices r p). 0 \<le> i \<and> i < int p"
    by (simp add: indices_def)
  moreover have "indices [1, 3, 1] 5 = [0, 2, 0]"
    by (simp add: indices_def)
  moreover have "\<exists>out h'. splitPdf (PdfFile d) r h = Inr (out, h')
         \<and> doc_pages out = map (\<lambda>i. doc_pages d ! nat i) (indices r (length (doc_pages d)))"
    by (simp add: splitPdf_parsed)
  ultimately show ?thesis by blast
qed

text \<open>
  The request \<open>[0, 1, 3, 1, 10, -2]\<close> on a document of five pages, told apart by their widths:
  the pages of widths 1, 3, 1 are selected.
\<close>

theorem splitPdf_selects_valid_pages_witness:
  "indices [0, 1, 3, 1, 10, -2] 5 = [0, 2, 0]
   \<and> list_all (\<lambda>i. 0 \<le> i \<and> i < 5) (indices [0, 1, 3, 1, 10, -2] 5)
   \<and> (\<exists>out h'. splitPdf (PdfFile \<lparr>doc_pages = map (\<lambda>w. \<lparr>page_width = w, page_height = 20, contents = []\<rparr>) [1, 2, 3, 4, 5], doc_fonts = []\<rparr>)
          [0, 1, 3, 1, 10, -2] [] = Inr (out, h')
        \<and> map page_width (doc_pages out) = [1, 3, 1])"
proof -
  let ?d = "\<lparr>doc_pages = map (\<lambda>w. \<lparr>page_width = w, page_height = 20, contents = []\<rparr>) [1, 2, 3, 4, 5], doc_fonts = []\<rparr>"
  note t = splitPdf_selects_valid_pages [of "[0, 1, 3, 1, 10, -2]" 5 ?d "[]"]
  have i: "indices [0, 1, 3, 1, 10, -2] 5 = [0, 2, 0]"
    by (simp add: indices_def)
  from t have "\<forall>i \<in> set (indices [0, 1, 3, 1, 10, -2] 5). 0 \<le> i \<and> i < int 5" by blast
  then have a: "list_all (\<lambda>i. 0 \<le> i \<and> i < 5) (indices [0, 1, 3, 1, 10, -2] 5)"
    by (simp add: list_all_iff)
  from t obtain out h' where
    o: "splitPdf (PdfFile ?d) [0, 1, 3, 1, 10, -2] [] = Inr (out, h')"
       "doc_pages out = map (\<lambda>i. doc_pages ?d ! nat i) (indices [0, 1, 3, 1, 10, -2] (length (doc_pages ?d)))"
    by blast
  have w: "map page_width (doc_pages out) = [1, 3, 1]"
    by (simp add: o(2) indices_def)
  show ?thesis
    by (intro conjI exI [of _ out] exI [of _ h']) (rule i a o(1) w)+
qed

text \<open>
  Claim C2. For every sequence of source documents, \<open>mergePdfs\<close> returns a document whose pages
  are the pages of the sources, concatenated in source order, each source's pages in their own
  order (all pages of the first source before those of the second). Merging a single document
  gives a document with the same number of pages and the same pages.
\<close>

theorem mergePdfs_concatenates_sources:
  "(\<exists>out h'. mergePdfs (map PdfFile docs) h = Inr (out, h')
       \<and> doc_pages out = concat (map doc_pages docs))
   \<and> (\<exists>out h'. mergePdfs [PdfFile d1, PdfFile d2] h = Inr (out, h')
       \<and> doc_pages out = doc_pages d1 @ doc_pages d2)
   \<and> (\<exists>out h'. mergePdfs [PdfFile d] h = Inr (out, h')
       \<and> length (doc_pages out) = length (doc_pages d) \<and> doc_pages out = doc_pages d)"
proof -
  have "\<exists>out h'. mergePdfs (map PdfFile docs) h = Inr (out, h')
       \<and> doc_pages out = concat (map doc_pages docs)"
    by (simp add: mergePdfs_parsed)
  moreover have "\<exists>out h'. mergePdfs [PdfFile d1, PdfFile d2] h = Inr (out, h')
       \<and> doc_pages out = doc_pages d1 @ doc_pages d2"
    using mergePdfs_parsed [of "[d1, d2]" h] by simp
  moreover have "\<exists>out h'. mergePdfs [PdfFile d] h = Inr (out, h')
       \<and> length (doc_pages out) = length (doc_pages d) \<and> doc_pages out = doc_pages d"
    using mergePdfs_parsed [of "[d]" h] by simp
  ultimately show ?thesis by blast
qed

text \<open>
  Claim C8. \<open>mergePdfs\<close> applied to the empty list of files returns, without failing, the
  serialization of a document with zero pages.
\<close>

theorem mergePdfs_empty:
  "\<exists>out h'. mergePdfs [] h = Inr (out, h') \<and> doc_pages out = [] \<and> length (doc_pages out) = 0"
  using mergePdfs_parsed [of "[]" h] by simp

text \<open>
  Claim C9. The title does not affect the result of \<open>createPdfFromText\<close>: for every text and any
  two titles the output documents (and the stores) are the same.
\<close>

theorem createPdfFromText_ignores_title:
  "createPdfFromText encodable defaultSize text t1 h = createPdfFromText encodable defaultSize text t2 h"
  by (simp add: createPdfFromText_def)

subsection \<open>The overlay\<close>


lemma drawText_fails:
  "\<not> list_all (encodable (opt_font opts)) s \<Longrightarrow> drawText encodable p s opts h = Inl CannotEncode"
  by (simp add: drawText_def)








subsection \<open>Text layout\<close>

lemma drawText_heap:
  "list_all (encodable (opt_font opts)) s \<Longrightarrow>
   drawText encodable (doc, i) s opts h = Inr (h[doc := drawOn i s opts (h ! doc)])"
  by (simp add: drawText_def drawOn_def Let_def)

lemma addNewPage_heap:
  "addNewPage doc defaultSize h =
     ((doc, length (doc_pages (h ! doc))),
      h[doc := (h ! doc)\<lparr>doc_pages := doc_pages (h ! doc) @ [blankPage defaultSize]\<rparr>])"
  by (simp add: addNewPage_def addPage_def blankPage_def)

lemma opt_font_lineOptions [simp]: "opt_font (lineOptions font c) = font"
  by (simp add: lineOptions_def)

lemma drawLines_heap:
  "pdfDoc < length h \<Longrightarrow>
   drawLines encodable pdfDoc defaultSize font height lines ((pdfDoc, i), cursorY) h =
     (if list_all (\<lambda>line. list_all (encodable font) (substring0 100 line)) lines
      then Inr (h[pdfDoc := layoutDoc defaultSize font height lines (i, cursorY) (h ! pdfDoc)])
      else Inl CannotEncode)"
proof (induction lines arbitrary: i cursorY h)
  case Nil
  then show ?case by simp
next
  case (Cons line lines)
  have opts: "\<lparr>opt_x = margin, opt_y = c, opt_size = fontSize, opt_font = font,
               opt_color = rgb 0 0 0, opt_opacity = None\<rparr> = lineOptions font c" for c
    by (simp add: lineOptions_def)
  show ?case
  proof (cases "list_all (encodable font) (substring0 100 line)")
    case False
    then have "drawText encodable p (substring0 100 line) (lineOptions font c) hh = Inl CannotEncode"
      for p c hh
      by (simp add: drawText_fails)
    with False show ?thesis
      by (simp add: opts addNewPage_heap)
  next
    case enc: True
    then have dt: "drawText encodable (pdfDoc, k) (substring0 100 line) (lineOptions font c) hh =
        Inr (hh[pdfDoc := drawOn k (substring0 100 line) (lineOptions font c) (hh ! pdfDoc)])"
      for k c hh
      by (simp add: drawText_heap)
    show ?thesis
    proof (cases "cursorY < margin + 20")
      case True
      then show ?thesis
        using Cons.prems enc
        by (simp add: opts addNewPage_heap dt Cons.IH)
    next
      case False
      then show ?thesis
        using Cons.prems enc
        by (simp add: opts dt Cons.IH)
    qed
  qed
qed

lemma createPdfFromText_layout:
  "createPdfFromText encodable defaultSize text title h =
     (if drawableText encodable text
      then Inr (layoutOf defaultSize text, h @ [layoutOf defaultSize text])
      else Inl CannotEncode)"
  by (simp add: createPdfFromText_def PDFDocument_create_def embedFont_def addNewPage_heap
      getSize_def drawLines_heap save_def blankPage_def case_prod_beta drawableText_def
      layoutOf_def)

lemma createPdfFromText_ok:
  "drawableText encodable text \<Longrightarrow>
   createPdfFromText encodable defaultSize text title h =
     Inr (layoutOf defaultSize text, h @ [layoutOf defaultSize text])"
  by (simp add: createPdfFromText_layout)


lemma length_drawOn [simp]: "length (doc_pages (drawOn i s opts d)) = length (doc_pages d)"
  by (simp add: drawOn_def)

lemma drawOn_pages_empty [simp]: "doc_pages (drawOn i s opts d) = [] \<longleftrightarrow> doc_pages d = []"
  by (simp add: drawOn_def)


lemma drawings_append [simp]:
  "drawings (pg\<lparr>contents := contents pg @ [DrawText s opts]\<rparr>) = drawings pg @ [(s, opts)]"
  by (simp add: drawings_def)

lemma drawings_blankPage [simp]: "drawings (blankPage defaultSize) = []"
  by (simp add: drawings_def blankPage_def)






















subsection \<open>Page breaks\<close>



lemma cursorAt_0 [simp]: "cursorAt height 0 = height - margin"
  by (simp add: cursorAt_def)


lemma opt_y_lineOptions [simp]: "opt_y (lineOptions font c) = c"
  by (simp add: lineOptions_def)










subsection \<open>Text extraction\<close>

lemma extractLoop_from:
  "k \<le> length ps \<Longrightarrow>
   extractLoop r ps (Suc k) acc =
     acc @ concat (map (\<lambda>(n, pg). pageBlock r n pg) (enumerate (Suc k) (drop k ps)))"
proof (induction "length ps - k" arbitrary: k acc)
  case 0
  then show ?case by simp
next
  case (Suc m)
  then have k: "k < length ps" by simp
  then have dr: "drop k ps = ps ! k # drop (Suc k) ps"
    by (simp add: Cons_nth_drop_Suc)
  have "extractLoop r ps (Suc k) acc =
        extractLoop r ps (Suc (Suc k)) (acc @ pageBlock r (Suc k) (ps ! k))"
    using k by (simp add: pageBlock_def pageText_def Let_def)
  also have "\<dots> = (acc @ pageBlock r (Suc k) (ps ! k)) @
      concat (map (\<lambda>(n, pg). pageBlock r n pg) (enumerate (Suc (Suc k)) (drop (Suc k) ps)))"
    using Suc.hyps(2) k by (intro Suc.hyps(1)) simp_all
  finally show ?case by (simp add: dr)
qed

lemma extractText_blocks:
  "extractText r (PdfFile d) =
     Inr (concat (map (\<lambda>(n, pg). pageBlock r n pg) (enumerate 1 (doc_pages d))))"
  using extractLoop_from [of 0 "doc_pages d" r "[]"]
  by (simp add: extractText_def)

lemma lit_marker_open: "lit ''--- Page '' = [45, 45, 45, 32, 80, 97, 103, 101, 32]"
  by (simp add: lit_def)

lemma lit_marker_close: "lit '' ---'' = [32, 45, 45, 45]"
  by (simp add: lit_def)

lemma prefix_before_newline:
  "newline \<notin> set p \<Longrightarrow> prefix p (a @ newline # b) = prefix p a"
proof (induction p arbitrary: a)
  case Nil
  then show ?case by simp
next
  case (Cons x p)
  then show ?case by (cases a) auto
qed

lemma not_isDigit_newline [simp]: "\<not> isDigit newline"
  by (simp add: isDigit_def newline_def)

lemma takeWhile_before_newline:
  "takeWhile isDigit (a @ newline # b) = takeWhile isDigit a"
  by (induction a) simp_all

lemma dropWhile_before_newline:
  "dropWhile isDigit (a @ newline # b) = dropWhile isDigit a @ newline # b"
  by (induction a) simp_all

lemma markerAt_before_newline:
  "markerAt (a @ newline # b) = markerAt a"
proof (cases "9 \<le> length a")
  case True
  then have dr: "drop 9 (a @ newline # b) = drop 9 a @ newline # b" by simp
  have n1: "newline \<notin> set (lit ''--- Page '')" by (simp add: lit_marker_open newline_def)
  have n2: "newline \<notin> set (lit '' ---'')" by (simp add: lit_marker_close newline_def)
  show ?thesis
    unfolding markerAt_def dr takeWhile_before_newline dropWhile_before_newline
      prefix_before_newline [OF n1] prefix_before_newline [OF n2] ..
next
  case False
  then have "\<not> prefix (lit ''--- Page '') a"
    by (auto simp: lit_marker_open dest: prefix_length_le)
  moreover have "prefix (lit ''--- Page '') (a @ newline # b) = prefix (lit ''--- Page '') a"
    by (rule prefix_before_newline) (simp add: lit_marker_open newline_def)
  ultimately show ?thesis by (simp add: markerAt_def)
qed

lemma not_markerAt_newline [simp]: "\<not> markerAt (newline # b)"
  by (simp add: markerAt_def lit_marker_open newline_def)

lemma countMarkers_newline:
  "countMarkers (a @ newline # b) = countMarkers a + countMarkers b"
proof (induction a)
  case Nil
  then show ?case by simp
next
  case (Cons x a)
  have "markerAt (x # a @ newline # b) = markerAt (x # a)"
    using markerAt_before_newline [of "x # a" b] by simp
  with Cons show ?case by simp
qed

lemma isDigit_of_nat:
  assumes "m < 10"
  shows "isDigit (of_nat (48 + m))"
proof -
  from assms have "m = 0 \<or> m = 1 \<or> m = 2 \<or> m = 3 \<or> m = 4 \<or> m = 5 \<or> m = 6 \<or> m = 7 \<or> m = 8 \<or> m = 9"
    by arith
  then show ?thesis
    by (elim disjE) (simp_all add: isDigit_def)
qed

lemma decimal_digits: "list_all isDigit (decimal n) \<and> decimal n \<noteq> []"
proof (induction n rule: decimal.induct)
  case (1 n)
  show ?case
  proof (cases "n < 10")
    case True
    then have "decimal n = [of_nat (48 + n)]"
      by (subst decimal.simps) simp
    with isDigit_of_nat [OF True] show ?thesis by simp
  next
    case False
    then have "decimal n = decimal (n div 10) @ [of_nat (48 + n mod 10)]"
      by (subst decimal.simps) simp
    moreover have "isDigit (of_nat (48 + n mod 10))"
      by (rule isDigit_of_nat) simp
    ultimately show ?thesis
      using 1 False by simp
  qed
qed

lemma not_markerAt_digit: "isDigit c \<Longrightarrow> \<not> markerAt (c # s)"
  by (auto simp: markerAt_def lit_marker_open isDigit_def)

lemma countMarkers_digits:
  "list_all isDigit ds \<Longrightarrow> countMarkers (ds @ r) = countMarkers r"
  by (induction ds) (simp_all add: not_markerAt_digit)

lemma countMarkers_tail: "countMarkers (lit '' ---'') = 0"
  by (simp add: lit_marker_close markerAt_def lit_marker_open)

lemma markerAt_marker:
  assumes "list_all isDigit ds" and "ds \<noteq> []"
  shows "markerAt (lit ''--- Page '' @ ds @ lit '' ---'')"
proof -
  have len: "length (lit ''--- Page '') = 9" by (simp add: lit_marker_open)
  have dr: "drop 9 (lit ''--- Page '' @ ds @ lit '' ---'') = ds @ lit '' ---''"
    using len by simp
  have tw: "takeWhile isDigit (ds @ lit '' ---'') = ds"
    using assms(1) by (induction ds) (simp_all add: lit_marker_close isDigit_def)
  have dw: "dropWhile isDigit (ds @ lit '' ---'') = lit '' ---''"
    using assms(1) by (induction ds) (simp_all add: lit_marker_close isDigit_def)
  show ?thesis
    unfolding markerAt_def dr tw dw using assms(2) by simp
qed

lemma countMarkers_header:
  "countMarkers (lit ''--- Page '' @ r) =
     (if markerAt (lit ''--- Page '' @ r) then 1 else 0) + countMarkers r"
proof -
  have "countMarkers (45 # 45 # 45 # 32 # 80 # 97 # 103 # 101 # 32 # r) =
        (if markerAt (45 # 45 # 45 # 32 # 80 # 97 # 103 # 101 # 32 # r) then 1 else 0)
        + countMarkers (45 # 45 # 32 # 80 # 97 # 103 # 101 # 32 # r)"
    by (simp only: countMarkers.simps)
  also have "countMarkers (45 # 45 # 32 # 80 # 97 # 103 # 101 # 32 # r) = countMarkers r"
    by (simp add: markerAt_def lit_marker_open)
  finally show ?thesis by (simp add: lit_marker_open)
qed

lemma countMarkers_marker:
  "countMarkers (lit ''--- Page '' @ decimal n @ lit '' ---'') = 1"
proof -
  have d: "list_all isDigit (decimal n)" "decimal n \<noteq> []"
    using decimal_digits [of n] by simp_all
  have a: "markerAt (lit ''--- Page '' @ decimal n @ lit '' ---'')"
    using d by (rule markerAt_marker)
  have b: "countMarkers (decimal n @ lit '' ---'') = countMarkers (lit '' ---'')"
    using d(1) by (rule countMarkers_digits)
  show ?thesis
    unfolding countMarkers_header b countMarkers_tail using a by simp
qed

lemma countMarkers_block:
  "countMarkers (pageBlock r n pg @ rest) = 1 + countMarkers (pageText r pg) + countMarkers rest"
proof -
  have "pageBlock r n pg @ rest =
        (lit ''--- Page '' @ decimal n @ lit '' ---'') @ newline # (pageText r pg @ newline # ([] @ newline # rest))"
    by (simp add: pageBlock_def)
  then have "countMarkers (pageBlock r n pg @ rest) =
        countMarkers (lit ''--- Page '' @ decimal n @ lit '' ---'')
        + (countMarkers (pageText r pg) + (countMarkers [] + countMarkers rest))"
    by (simp only: countMarkers_newline)
  then show ?thesis
    by (simp add: countMarkers_marker)
qed

lemma countMarkers_blocks:
  "countMarkers (concat (map (\<lambda>(n, pg). pageBlock r n pg) nps)) =
     length nps + sum_list (map (\<lambda>(n, pg). countMarkers (pageText r pg)) nps)"
  by (induction nps) (auto simp: countMarkers_block)

lemma countMarkers_extracted:
  "countMarkers (concat (map (\<lambda>(n, pg). pageBlock r n pg) (enumerate 1 ps))) =
     length ps + sum_list (map (\<lambda>pg. countMarkers (pageText r pg)) ps)"
proof -
  have "map (\<lambda>(n, pg). countMarkers (pageText r pg)) (enumerate k ps) =
        map (\<lambda>pg. countMarkers (pageText r pg)) ps" for k
    by (induction ps arbitrary: k) simp_all
  then show ?thesis
    by (simp add: countMarkers_blocks)
qed

text \<open>
  Claim C4, as amended. For every document with N pages, \<open>extractText\<close> returns the
  concatenation, in ascending page order with the pages numbered from 1, of one block per
  page: the line \<open>--- Page {n} ---\<close>, the text fragments of the page joined with single spaces,
  and a blank line. The number of marker occurrences in the result is N plus the number of
  occurrences inside the pages' own texts; it is exactly N when no page's text contains a
  marker.
\<close>

theorem extractText_one_block_per_page:
  "extractText r (PdfFile d) =
     Inr (concat (map (\<lambda>(n, pg). pageBlock r n pg) (enumerate 1 (doc_pages d))))
   \<and> countMarkers (concat (map (\<lambda>(n, pg). pageBlock r n pg) (enumerate 1 (doc_pages d)))) =
       length (doc_pages d) + sum_list (map (\<lambda>pg. countMarkers (pageText r pg)) (doc_pages d))
   \<and> ((\<forall>pg \<in> set (doc_pages d). countMarkers (pageText r pg) = 0) \<longrightarrow>
       countMarkers (concat (map (\<lambda>(n, pg). pageBlock r n pg) (enumerate 1 (doc_pages d)))) =
       length (doc_pages d))"
proof -
  let ?out = "concat (map (\<lambda>(n, pg). pageBlock r n pg) (enumerate 1 (doc_pages d)))"
  have a: "extractText r (PdfFile d) = Inr ?out"
    by (rule extractText_blocks)
  have b: "countMarkers ?out =
       length (doc_pages d) + sum_list (map (\<lambda>pg. countMarkers (pageText r pg)) (doc_pages d))"
    by (rule countMarkers_extracted)
  have c: "countMarkers ?out = length (doc_pages d)"
    if "\<forall>pg \<in> set (doc_pages d). countMarkers (pageText r pg) = 0"
  proof -
    from that have "sum_list (map (\<lambda>pg. countMarkers (pageText r pg)) (doc_pages d)) = 0"
      by simp
    with b show ?thesis by simp
  qed
  from a b c show ?thesis by blast
qed

text \<open>
  The document made from the text \<open>Hello\<close>, line feed, \<open>World\<close> on A4 has one page with two
  fragments and no marker in them: one block, one marker.
\<close>

theorem extractText_one_block_per_page_witness:
  "\<not> isl (createPdfFromText printableAscii (595.28, 841.89)
             (lit ''Hello'' @ [newline] @ lit ''World'') [] [])
   \<and> extractText drawnTextReader
       (PdfFile (fst (projr (createPdfFromText printableAscii (595.28, 841.89)
                               (lit ''Hello'' @ [newline] @ lit ''World'') [] [])))) =
     Inr (lit ''--- Page 1 ---'' @ [newline] @ lit ''Hello World'' @ [newline, newline])
   \<and> countMarkers (lit ''--- Page 1 ---'' @ [newline] @ lit ''Hello World'' @ [newline, newline]) = 1"
proof -
  define T where "T = lit ''Hello'' @ [newline] @ lit ''World''"
  define d where "d = layoutOf (595.28, 841.89) T"
  define p1 where "p1 = (blankPage (595.28, 841.89))\<lparr>contents :=
      [DrawText (lit ''Hello'') (lineOptions Helvetica 791.89),
       DrawText (lit ''World'') (lineOptions Helvetica 774.89)]\<rparr>"
  let ?out = "lit ''--- Page 1 ---'' @ [newline] @ lit ''Hello World'' @ [newline, newline]"
  note t = extractText_one_block_per_page [of drawnTextReader d]
  have sp: "split_newline T = [lit ''Hello'', lit ''World'']"
    by (simp add: T_def split_newline_def lit_def newline_def)
  have "drawableText printableAscii T"
    unfolding drawableText_def sp by (simp add: substring0_def lit_def printableAscii_def)
  then have cr: "createPdfFromText printableAscii (595.28, 841.89) T [] [] = Inr (d, [d])"
    unfolding d_def by (simp add: createPdfFromText_ok)
  have pages: "doc_pages d = [p1]"
    unfolding p1_def d_def
    by (simp only: layoutOf_def snd_conv sp)
       (simp add: margin_def fontSize_def drawOn_def substring0_def blankPage_def lit_def)
  have t1: "pageText drawnTextReader p1 = lit ''Hello World''"
    unfolding p1_def
    by (simp add: pageText_def drawnTextReader_def drawings_def lit_def)
  have blk: "concat (map (\<lambda>(n, pg). pageBlock drawnTextReader n pg) (enumerate 1 (doc_pages d))) = ?out"
    unfolding pages by (simp add: pageBlock_def t1 decimal.simps lit_def)
  have "countMarkers (lit ''Hello World'') = 0"
    by (simp add: lit_def markerAt_def)
  then have free: "\<forall>pg \<in> set (doc_pages d). countMarkers (pageText drawnTextReader pg) = 0"
    unfolding pages by (simp add: t1)
  from t free have "extractText drawnTextReader (PdfFile d) = Inr ?out" "countMarkers ?out = length (doc_pages d)"
    unfolding blk by blast+
  moreover have "length (doc_pages d) = 1"
    unfolding pages by simp
  ultimately have "extractText drawnTextReader (PdfFile d) = Inr ?out" "countMarkers ?out = 1"
    by simp_all
  with cr show ?thesis
    unfolding T_def [symmetric] by simp
qed

text \<open>
  The claim as stated (exactly N markers for every document of N pages) fails for a page
  whose own text is a marker: the one-page document made from the text \<open>--- Page 1 ---\<close>
  gives a result with two markers.
\<close>

theorem extractText_marker_count_counterexample:
  "\<not> isl (createPdfFromText printableAscii (595.28, 841.89) (lit ''--- Page 1 ---'') [] [])
   \<and> length (doc_pages (fst (projr (createPdfFromText printableAscii (595.28, 841.89)
                                      (lit ''--- Page 1 ---'') [] [])))) = 1
   \<and> extractText drawnTextReader
         (PdfFile (fst (projr (createPdfFromText printableAscii (595.28, 841.89)
                                 (lit ''--- Page 1 ---'') [] [])))) =
       Inr (lit ''--- Page 1 ---'' @ [newline] @ lit ''--- Page 1 ---'' @ [newline, newline])
   \<and> countMarkers (lit ''--- Page 1 ---'' @ [newline] @ lit ''--- Page 1 ---'' @ [newline, newline]) = 2"
proof -
  define d where "d = layoutOf (595.28, 841.89) (lit ''--- Page 1 ---'')"
  define p1 where "p1 = (blankPage (595.28, 841.89))\<lparr>contents :=
      [DrawText (lit ''--- Page 1 ---'') (lineOptions Helvetica 791.89)]\<rparr>"
  have sp: "split_newline (lit ''--- Page 1 ---'') = [lit ''--- Page 1 ---'']"
    by (simp add: split_newline_def lit_def newline_def)
  have "drawableText printableAscii (lit ''--- Page 1 ---'')"
    unfolding drawableText_def sp by (simp add: substring0_def lit_def printableAscii_def)
  then have cr: "createPdfFromText printableAscii (595.28, 841.89) (lit ''--- Page 1 ---'') [] []
      = Inr (d, [d])"
    unfolding d_def by (simp add: createPdfFromText_ok)
  have pages: "doc_pages d = [p1]"
    unfolding p1_def d_def
    by (simp only: layoutOf_def snd_conv sp)
       (simp add: margin_def fontSize_def drawOn_def substring0_def blankPage_def lit_def)
  have t1: "pageText drawnTextReader p1 = lit ''--- Page 1 ---''"
    unfolding p1_def
    by (simp add: pageText_def drawnTextReader_def drawings_def)
  have a: "length (doc_pages d) = 1"
    unfolding pages by simp
  have b: "extractText drawnTextReader (PdfFile d) =
       Inr (lit ''--- Page 1 ---'' @ [newline] @ lit ''--- Page 1 ---'' @ [newline, newline])"
    unfolding extractText_blocks pages
    by (simp add: pageBlock_def t1 decimal.simps lit_def)
  have c: "countMarkers (lit ''--- Page 1 ---'' @ [newline] @ lit ''--- Page 1 ---'' @ [newline, newline]) = 2"
    by (simp add: lit_def newline_def markerAt_def isDigit_def)
  from a b c show ?thesis
    unfolding cr by simp
qed

subsection \<open>Which documents an operation changes\<close>




end
